theory Spec2Isabelle
  imports Main "HOL-Library.Sublist"
begin

section \<open>Python strings\<close>

text \<open>
  A Python \<open>str\<close> is a \<open>string\<close>: the character with code \<open>n\<close> stands for the
  code point \<open>n\<close>, so the model covers the code points below 256. A \<open>bytes\<close> value
  is a \<open>string\<close> as well.
\<close>

definition isspace :: "char \<Rightarrow> bool" where
  \<comment> \<open>\<open>str.isspace\<close> on one character: the white space among the code points below 256.\<close>
  "isspace c = (of_char c \<in> set [9, 10, 11, 12, 13, 28, 29, 30, 31, 32, 133, 160 :: nat])"

definition strip :: "string \<Rightarrow> string" where
  \<comment> \<open>\<open>s.strip()\<close>\<close>
  "strip s = rev (dropWhile isspace (rev (dropWhile isspace s)))"

definition startswith :: "string \<Rightarrow> string \<Rightarrow> bool" where
  \<comment> \<open>\<open>s.startswith(p)\<close>\<close>
  "startswith s p = (take (length p) s = p)"

definition str_join :: "string \<Rightarrow> string list \<Rightarrow> string" where
  \<comment> \<open>\<open>sep.join(parts)\<close>\<close>
  "str_join sep parts =
     concat (case parts of [] \<Rightarrow> [] | p # ps \<Rightarrow> p # map (\<lambda>q. sep @ q) ps)"

fun str_split :: "string \<Rightarrow> char \<Rightarrow> string list" where
  \<comment> \<open>\<open>s.split(sep)\<close> for a separator of one character; the result is never empty.\<close>
  "str_split [] sep = [[]]"
| "str_split (c # cs) sep =
     (if c = sep then [] # str_split cs sep
      else (case str_split cs sep of [] \<Rightarrow> [[c]] | p # ps \<Rightarrow> (c # p) # ps))"

fun str_split1 :: "string \<Rightarrow> char \<Rightarrow> string list" where
  \<comment> \<open>\<open>s.split(sep, 1)\<close>: at most one split, at the first separator.\<close>
  "str_split1 [] sep = [[]]"
| "str_split1 (c # cs) sep =
     (if c = sep then [[], cs]
      else (case str_split1 cs sep of [] \<Rightarrow> [[c]] | p # ps \<Rightarrow> (c # p) # ps))"

fun ws_tokens :: "string \<Rightarrow> string \<Rightarrow> string list" where
  \<comment> \<open>The maximal runs of characters that are not white space; the first argument is the
      run being read, reversed.\<close>
  "ws_tokens cur [] = (if cur = [] then [] else [rev cur])"
| "ws_tokens cur (c # cs) =
     (if isspace c then (if cur = [] then ws_tokens [] cs else rev cur # ws_tokens [] cs)
      else ws_tokens (c # cur) cs)"

section \<open>scraper.py: the filename sanitizer\<close>

definition INVALID_FILENAME_CHARS :: "char list" where
  "INVALID_FILENAME_CHARS =
     [CHR ''/'', CHR 0x5C, CHR ''?'', CHR ''%'', CHR ''*'', CHR '':'', CHR ''|'', CHR 0x22,
      CHR ''<'', CHR ''>'', CHR ''.'']"

definition sanitize_filename :: "string \<Rightarrow> string" where
  "sanitize_filename filename =
     str_join '''' [[char]. char \<leftarrow> filename, char \<notin> set INVALID_FILENAME_CHARS]"

section \<open>The parsed document\<close>

text \<open>
  The exception classes that matter to the scraper: the three that the handler of
  \<open>extract_comic_data\<close> names, and two that no handler of the scraper names, the
  \<open>ValueError\<close> that opening a file can raise and the \<open>AssertionError\<close> of the HTML
  parser.
\<close>

datatype exn = AttributeError | KeyError | TypeError | ValueError | AssertionError

definition and_then :: "exn + 'a \<Rightarrow> ('a \<Rightarrow> exn + 'b) \<Rightarrow> exn + 'b" where
  \<comment> \<open>Sequencing of two statements: an exception raised by the first skips the second.\<close>
  "and_then m f = (case m of Inl e \<Rightarrow> Inl e | Inr x \<Rightarrow> f x)"

text \<open>
  The scraper reaches the document only through the operations below; each either
  returns or raises. \<open>'n\<close> is the type of the objects the operations are called on.
\<close>

record 'n html_api =
  find_by_id :: "'n \<Rightarrow> string \<Rightarrow> string \<Rightarrow> exn + 'n option"
    \<comment> \<open>\<open>x.find(name, id=v)\<close>\<close>
  find_by_class :: "'n \<Rightarrow> string \<Rightarrow> string \<Rightarrow> exn + 'n option"
    \<comment> \<open>\<open>x.find(name, class_=v)\<close>\<close>
  find_by_name :: "'n \<Rightarrow> string \<Rightarrow> exn + 'n option"
    \<comment> \<open>\<open>x.find(name)\<close>\<close>
  attrs_of :: "'n \<Rightarrow> exn + (string \<times> string) list"
    \<comment> \<open>\<open>x.attrs\<close>\<close>
  getitem :: "'n \<Rightarrow> string \<Rightarrow> exn + string"
    \<comment> \<open>\<open>x[key]\<close>\<close>
  get_or :: "'n \<Rightarrow> string \<Rightarrow> string \<Rightarrow> exn + string"
    \<comment> \<open>\<open>x.get(key, default)\<close>\<close>
  get_text :: "'n \<Rightarrow> exn + string"
    \<comment> \<open>\<open>x.get_text()\<close>\<close>

text \<open>
  A document parsed by BeautifulSoup is a tree of tags and strings. The attributes of a
  tag are a dictionary, kept as an association list read with \<open>map_of\<close>. The document
  itself is the root tag. Comments and the other strings that \<open>get_text\<close> skips are
  left out of the tree.
\<close>

datatype node = Tag string "(string \<times> string) list" "node list" | NavigableString string

fun descendants :: "node \<Rightarrow> node list" where
  \<comment> \<open>\<open>x.descendants\<close>: every node below \<open>x\<close>, in document order, \<open>x\<close> excluded.\<close>
  "descendants (Tag nm attrs children) = concat (map (\<lambda>c. c # descendants c) children)"
| "descendants (NavigableString s) = []"

fun tag_attrs :: "node \<Rightarrow> (string \<times> string) list" where
  "tag_attrs (Tag nm attrs children) = attrs"
| "tag_attrs (NavigableString s) = []"

fun has_name :: "string \<Rightarrow> node \<Rightarrow> bool" where
  "has_name v (Tag nm attrs children) = (nm = v)"
| "has_name v (NavigableString s) = False"

fun node_string :: "node \<Rightarrow> string" where
  "node_string (Tag nm attrs children) = []"
| "node_string (NavigableString s) = s"

definition has_id :: "string \<Rightarrow> node \<Rightarrow> bool" where
  "has_id v n = (map_of (tag_attrs n) ''id'' = Some v)"

definition has_class :: "string \<Rightarrow> node \<Rightarrow> bool" where
  \<comment> \<open>\<open>class\<close> is a multi-valued attribute: one of its white-space separated values
      has to match.\<close>
  "has_class v n =
     (case map_of (tag_attrs n) ''class'' of
        None \<Rightarrow> False
      | Some cls \<Rightarrow> v \<in> set (ws_tokens [] cls))"

definition bs4 :: "node html_api" where
  \<comment> \<open>The operations on a parsed document: none of them raises, but \<open>x[key]\<close> on a
      missing key.\<close>
  "bs4 =
     \<lparr> find_by_id = (\<lambda>x nm v. Inr (find (\<lambda>t. has_name nm t \<and> has_id v t) (descendants x))),
       find_by_class =
         (\<lambda>x nm v. Inr (find (\<lambda>t. has_name nm t \<and> has_class v t) (descendants x))),
       find_by_name = (\<lambda>x nm. Inr (find (has_name nm) (descendants x))),
       attrs_of = (\<lambda>x. Inr (tag_attrs x)),
       getitem = (\<lambda>x k. case map_of (tag_attrs x) k of None \<Rightarrow> Inl KeyError | Some v \<Rightarrow> Inr v),
       get_or = (\<lambda>x k d. Inr (case map_of (tag_attrs x) k of None \<Rightarrow> d | Some v \<Rightarrow> v)),
       get_text = (\<lambda>x. Inr (concat (map node_string (descendants x)))) \<rparr>"

section \<open>scraper.py: extract_comic_data\<close>

record comic_data =
  image_url :: string
  title :: string
  date :: string
  hover_text :: string

definition extract_title :: "'n html_api \<Rightarrow> 'n \<Rightarrow> exn + string" where
  \<comment> \<open>Lines 88 to 92: the title, \<open>"unknown"\<close> unless the header and its link are found.\<close>
  "extract_title api blog_area =
     and_then (find_by_class api blog_area ''div'' ''cc-newsheader'') (\<lambda>news_header.
       case news_header of
         None \<Rightarrow> Inr ''unknown''
       | Some nh \<Rightarrow>
           and_then (find_by_name api nh ''a'') (\<lambda>title_link.
             case title_link of
               None \<Rightarrow> Inr ''unknown''
             | Some link \<Rightarrow> and_then (get_text api link) (\<lambda>t. Inr (strip t))))"

definition extract_date :: "'n html_api \<Rightarrow> 'n \<Rightarrow> exn + string" where
  \<comment> \<open>Lines 94 to 96.\<close>
  "extract_date api blog_area =
     and_then (find_by_class api blog_area ''div'' ''cc-publishtime'') (\<lambda>publish_time_div.
       case publish_time_div of
         None \<Rightarrow> Inr ''unknown''
       | Some pd \<Rightarrow> and_then (get_text api pd) (\<lambda>t. Inr (strip t)))"

definition extract_blog_area :: "'n html_api \<Rightarrow> 'n \<Rightarrow> exn + string \<times> string" where
  \<comment> \<open>Lines 83 to 96: the title and the date.\<close>
  "extract_blog_area api soup =
     and_then (find_by_id api soup ''div'' ''blogarea'') (\<lambda>blog_area.
       case blog_area of
         None \<Rightarrow> Inr (''unknown'', ''unknown'')
       | Some ba \<Rightarrow>
           and_then (extract_title api ba) (\<lambda>title.
             and_then (extract_date api ba) (\<lambda>date. Inr (title, date))))"

definition extract_try :: "'n html_api \<Rightarrow> 'n \<Rightarrow> exn + comic_data option" where
  \<comment> \<open>Lines 68 to 103, the body of the \<open>try\<close>. An object that was found is true.\<close>
  "extract_try api soup =
     and_then (find_by_id api soup ''div'' ''cc-comicbody'') (\<lambda>comic_div.
       case comic_div of
         None \<Rightarrow> Inr None
       | Some cd \<Rightarrow>
           and_then (find_by_name api cd ''img'') (\<lambda>comic_img.
             case comic_img of
               None \<Rightarrow> Inr None
             | Some img \<Rightarrow>
                 and_then (attrs_of api img) (\<lambda>attrs.
                   if map_of attrs ''src'' = None then Inr None
                   else
                     and_then (getitem api img ''src'') (\<lambda>url.
                       and_then (get_or api img ''title'' '''') (\<lambda>hover.
                         and_then (extract_blog_area api soup) (\<lambda>(t, d).
                           Inr (Some \<lparr> image_url = url, title = t, date = d,
                                       hover_text = hover \<rparr>)))))))"

definition handled :: "exn \<Rightarrow> bool" where
  \<comment> \<open>Line 104: \<open>except (AttributeError, KeyError, TypeError)\<close>.\<close>
  "handled e = (e = AttributeError \<or> e = KeyError \<or> e = TypeError)"

definition extract_comic_data :: "'n html_api \<Rightarrow> 'n \<Rightarrow> exn + comic_data option" where
  \<comment> \<open>\<open>Inr None\<close> is the return of \<open>None\<close>, \<open>Inl e\<close> an exception that leaves the
      function.\<close>
  "extract_comic_data api soup =
     (case extract_try api soup of
        Inl e \<Rightarrow> if handled e then Inr None else Inl e
      | Inr r \<Rightarrow> Inr r)"

section \<open>scraper.py: the network and the files\<close>

text \<open>
  The world outside the process. An HTTP request either fails with a
  \<open>RequestException\<close> or returns a response with a status, a text body and the body's
  bytes. The HTML parser either builds a document or raises; what it raises is no
  \<open>RequestException\<close>. Opening a file and writing it either raises an \<open>IOError\<close>, at the
  opening or after some of the data was written, or raises another exception, at the
  opening or after some of the data was written, or goes through. What the network, the
  parser and the disk answer is a parameter; the requests made and the files written are
  recorded in the state, oldest first.
\<close>

datatype http_result = RequestFailed | Response nat string string

datatype io_outcome =
  OpenFails | WriteFails nat | OpenRaises exn | WriteRaises nat exn | WriteOk

record env =
  net :: "nat \<Rightarrow> string \<Rightarrow> http_result"
    \<comment> \<open>the answer to a GET, given the number of requests made before it\<close>
  html_parser :: "string \<Rightarrow> exn + node"
    \<comment> \<open>\<open>BeautifulSoup(text, "html.parser")\<close>\<close>
  disk :: "string \<Rightarrow> string \<Rightarrow> io_outcome"
    \<comment> \<open>what happens when the file of this path is opened and this data written\<close>

record world =
  requested :: "string list"
  written :: "(string \<times> string) list"

definition EXPLOSM_BASE_URL :: string where
  "EXPLOSM_BASE_URL = ''https://www.smbc-comics.com/''"

definition raises_for_status :: "nat \<Rightarrow> bool" where
  \<comment> \<open>\<open>response.raise_for_status()\<close> raises on a client or server error status.\<close>
  "raises_for_status status = (400 \<le> status \<and> status < 600)"

definition http_get :: "env \<Rightarrow> string \<Rightarrow> world \<Rightarrow> http_result \<times> world" where
  \<comment> \<open>\<open>requests.get(url)\<close>\<close>
  "http_get e url w =
     (net e (length (requested w)) url, w\<lparr> requested := requested w @ [url] \<rparr>)"

definition fetch_webpage :: "env \<Rightarrow> string \<Rightarrow> world \<Rightarrow> (exn + node option) \<times> world" where
  \<comment> \<open>Line 51 catches the \<open>RequestException\<close> only: an exception of the parser leaves the
      function (\<open>Inl\<close>).\<close>
  "fetch_webpage e url w =
     (case http_get e url w of
        (RequestFailed, w') \<Rightarrow> (Inr None, w')
      | (Response status text content, w') \<Rightarrow>
          if raises_for_status status then (Inr None, w')
          else (case html_parser e text of
                  Inl x \<Rightarrow> (Inl x, w')
                | Inr soup \<Rightarrow> (Inr (Some soup), w')))"

definition resolve_url :: "string \<Rightarrow> string" where
  \<comment> \<open>Lines 120 and 121.\<close>
  "resolve_url url = (if startswith url ''//'' then ''https:'' @ url else url)"

definition download_image :: "env \<Rightarrow> string \<Rightarrow> world \<Rightarrow> string option \<times> world" where
  "download_image e url w =
     (case http_get e (resolve_url url) w of
        (RequestFailed, w') \<Rightarrow> (None, w')
      | (Response status text content, w') \<Rightarrow>
          if raises_for_status status then (None, w') else (Some content, w'))"

definition write_file :: "env \<Rightarrow> string \<Rightarrow> string \<Rightarrow> world \<Rightarrow> (exn + bool) \<times> world" where
  \<comment> \<open>\<open>with open(path, mode) as f: f.write(data)\<close> under \<open>except IOError\<close>: whether it
      went through, and the file left behind. An exception that is no \<open>IOError\<close> leaves
      the function (\<open>Inl\<close>).\<close>
  "write_file e path data w =
     (case disk e path data of
        OpenFails \<Rightarrow> (Inr False, w)
      | WriteFails n \<Rightarrow> (Inr False, w\<lparr> written := written w @ [(path, take n data)] \<rparr>)
      | OpenRaises x \<Rightarrow> (Inl x, w)
      | WriteRaises n x \<Rightarrow> (Inl x, w\<lparr> written := written w @ [(path, take n data)] \<rparr>)
      | WriteOk \<Rightarrow> (Inr True, w\<lparr> written := written w @ [(path, data)] \<rparr>))"

definition save_image :: "env \<Rightarrow> string \<Rightarrow> string \<Rightarrow> world \<Rightarrow> (exn + bool) \<times> world" where
  "save_image e image_data filepath w = write_file e filepath image_data w"

definition get_file_extension :: "string \<Rightarrow> string" where
  \<comment> \<open>\<open>url.split('.')[-1]\<close>; the list is never empty.\<close>
  "get_file_extension url = last (str_split url (CHR ''.''))"

definition metadata_text :: "comic_data \<Rightarrow> string" where
  \<comment> \<open>Lines 204 to 207: the four lines written to the metadata file.\<close>
  "metadata_text cd =
     ''Title: '' @ title cd @ ''\<newline>'' @
     ''Date: '' @ date cd @ ''\<newline>'' @
     ''Hover Text: '' @ hover_text cd @ ''\<newline>'' @
     ''Image URL: '' @ image_url cd @ ''\<newline>''"

definition get_current_comic :: "env \<Rightarrow> world \<Rightarrow> (exn + bool) \<times> world" where
  \<comment> \<open>The result, \<open>Inl\<close> for an exception that leaves the function, and the world after
      the run. The messages printed are left out.\<close>
  "get_current_comic e w =
     (case fetch_webpage e EXPLOSM_BASE_URL w of
        (Inl x, w1) \<Rightarrow> (Inl x, w1)
      | (Inr None, w1) \<Rightarrow> (Inr False, w1)
      | (Inr (Some soup), w1) \<Rightarrow>
          (case extract_comic_data bs4 soup of
             Inl x \<Rightarrow> (Inl x, w1)
           | Inr None \<Rightarrow> (Inr False, w1)
           | Inr (Some cd) \<Rightarrow>
               (let title_str = sanitize_filename (title cd);
                    base_filename = (if title_str \<noteq> ''unknown'' then title_str else ''smbc_comic'')
                in case download_image e (image_url cd) w1 of
                     (None, w2) \<Rightarrow> (Inr False, w2)
                   | (Some image_data, w2) \<Rightarrow>
                       (let file_extension = get_file_extension (image_url cd);
                            image_path = base_filename @ ''.'' @ file_extension
                        in case save_image e image_data image_path w2 of
                             (Inl x, w3) \<Rightarrow> (Inl x, w3)
                           | (Inr False, w3) \<Rightarrow> (Inr False, w3)
                           | (Inr True, w3) \<Rightarrow>
                               (let metadata_path = base_filename @ ''_metadata.txt''
                                in write_file e metadata_path (metadata_text cd) w3)))))"

section \<open>update_readme.py: reading the metadata file\<close>

fun translate_newlines :: "string \<Rightarrow> string" where
  \<comment> \<open>A file opened for reading in text mode: a carriage return, with the line feed
      after it if there is one, reads as one line feed.\<close>
  "translate_newlines [] = []"
| "translate_newlines [c] = (if c = CHR 0x0D then [CHR 0x0A] else [c])"
| "translate_newlines (c # d # cs) =
     (if c = CHR 0x0D \<and> d = CHR 0x0A then CHR 0x0A # translate_newlines cs
      else if c = CHR 0x0D then CHR 0x0A # translate_newlines (d # cs)
      else c # translate_newlines (d # cs))"

fun split_lines :: "string \<Rightarrow> string list" where
  \<comment> \<open>The lines, each with its line feed; the last one may have none.\<close>
  "split_lines [] = []"
| "split_lines (c # cs) =
     (if c = CHR 0x0A then [CHR 0x0A] # split_lines cs
      else (case split_lines cs of [] \<Rightarrow> [[c]] | l # ls \<Rightarrow> (c # l) # ls))"

definition file_lines :: "string \<Rightarrow> string list" where
  \<comment> \<open>\<open>for line in f\<close>\<close>
  "file_lines content = split_lines (translate_newlines content)"

definition parse_line :: "(string \<rightharpoonup> string) \<Rightarrow> string \<Rightarrow> (string \<rightharpoonup> string)" where
  \<comment> \<open>Lines 48 to 50. Under the test of line 48 the split has two parts.\<close>
  "parse_line metadata line =
     (if CHR '':'' \<in> set line
      then (case str_split1 line (CHR '':'') of
              [key, val] \<Rightarrow> metadata(strip key \<mapsto> strip val)
            | _ \<Rightarrow> metadata)
      else metadata)"

definition read_metadata :: "string \<Rightarrow> (string \<rightharpoonup> string)" where
  \<comment> \<open>Lines 44 to 50, on the content of a metadata file that exists.\<close>
  "read_metadata content = fold (\<lambda>line metadata. parse_line metadata line) (file_lines content) Map.empty"

section \<open>Facts about the string operations\<close>

lemma str_join_empty: "str_join [] ps = concat ps"
proof -
  have "(@) [] = (\<lambda>q::string. q)"
    by (rule ext) simp
  then show ?thesis
    by (cases ps) (simp_all add: str_join_def)
qed

lemma sanitize_filename_filter:
  "sanitize_filename s = filter (\<lambda>c. c \<notin> set INVALID_FILENAME_CHARS) s"
  unfolding sanitize_filename_def str_join_empty
  by (induction s) simp_all

lemma str_split_no_sep: "sep \<notin> set s \<Longrightarrow> str_split s sep = [s]"
  by (induction s) auto

lemma str_split_not_Nil: "str_split s sep \<noteq> []"
  by (induction s) (auto split: list.splits)

lemma str_split_sep: "sep \<in> set s \<Longrightarrow> \<exists>p q qs. str_split s sep = p # q # qs"
proof (induction s)
  case Nil
  then show ?case by simp
next
  case (Cons x xs)
  show ?case
  proof (cases "x = sep")
    case True
    then show ?thesis
      using str_split_not_Nil[of xs sep] by (cases "str_split xs sep") auto
  next
    case False
    with Cons show ?thesis by auto
  qed
qed

lemma str_split1_two_parts: "sep \<in> set s \<Longrightarrow> \<exists>k v. str_split1 s sep = [k, v]"
  by (induction s) auto

lemma last_str_split:
  "last (str_split s sep) = rev (takeWhile (\<lambda>x. x \<noteq> sep) (rev s))"
proof (induction s)
  case Nil
  then show ?case by simp
next
  case (Cons x xs)
  show ?case
  proof (cases "sep \<in> set xs")
    case True
    then obtain p q qs where pq: "str_split xs sep = p # q # qs"
      using str_split_sep by blast
    have tw: "takeWhile (\<lambda>x. x \<noteq> sep) (rev xs @ [x]) = takeWhile (\<lambda>x. x \<noteq> sep) (rev xs)"
      using True by (intro takeWhile_append1[of sep]) auto
    from pq Cons tw show ?thesis by auto
  next
    case False
    then have s: "str_split xs sep = [xs]"
      by (rule str_split_no_sep)
    have tw: "takeWhile (\<lambda>x. x \<noteq> sep) (rev xs) = rev xs"
      using False by (intro takeWhile_eq_all_conv[THEN iffD2]) auto
    show ?thesis
      using s tw False by (cases "x = sep") (simp_all add: takeWhile_append)
  qed
qed

section \<open>The filename sanitizer\<close>

text \<open>
  C6. For every input, the result of \<open>sanitize_filename\<close> contains no character of the
  blocklist, is a subsequence of the input, is the input with exactly the blocked
  characters filtered out, and so keeps every other character, in order.
\<close>

theorem sanitize_filename_removes_blocklist:
  "set (sanitize_filename s) \<inter> set INVALID_FILENAME_CHARS = {}
   \<and> subseq (sanitize_filename s) s
   \<and> sanitize_filename s = filter (\<lambda>c. c \<notin> set INVALID_FILENAME_CHARS) s
   \<and> filter (\<lambda>c. c \<notin> set INVALID_FILENAME_CHARS) (sanitize_filename s)
       = filter (\<lambda>c. c \<notin> set INVALID_FILENAME_CHARS) s"
  by (auto simp add: sanitize_filename_filter)

theorem sanitize_filename_removes_blocklist_witness:
  "sanitize_filename ''a/b: c.d?'' = ''ab cd''
   \<and> set ''ab cd'' \<inter> set INVALID_FILENAME_CHARS = {}
   \<and> subseq ''ab cd'' ''a/b: c.d?''"
proof -
  have v: "sanitize_filename ''a/b: c.d?'' = ''ab cd''"
    by (simp add: sanitize_filename_filter INVALID_FILENAME_CHARS_def)
  show ?thesis
    using sanitize_filename_removes_blocklist [of "''a/b: c.d?''"] unfolding v by simp
qed

section \<open>The file extension\<close>

text \<open>
  C9. \<open>get_file_extension\<close> returns what follows the last dot of the URL, the query
  string included: the result has no dot, a URL with a dot ends with a dot and the
  result, and a URL without a dot is returned whole. For
  \<open>https://x.com/path/comic.png\<close> it is \<open>png\<close>, and a dot in the query string wins.
\<close>

theorem get_file_extension_last_segment:
  "CHR ''.'' \<notin> set (get_file_extension url)
   \<and> (CHR ''.'' \<in> set url \<longrightarrow> (\<exists>pre. url = pre @ ''.'' @ get_file_extension url))
   \<and> (CHR ''.'' \<notin> set url \<longrightarrow> get_file_extension url = url)
   \<and> get_file_extension ''https://x.com/path/comic.png'' = ''png''
   \<and> get_file_extension ''https://x.com/path/comic.png?v=1.5'' = ''5''"
proof -
  let ?P = "\<lambda>x. x \<noteq> CHR ''.''"
  have ext: "get_file_extension url = rev (takeWhile ?P (rev url))"
    by (simp add: get_file_extension_def last_str_split)
  have nodot: "CHR ''.'' \<notin> set (get_file_extension url)"
    unfolding ext using set_takeWhileD[of "CHR ''.''" ?P "rev url"] by auto
  have whole: "get_file_extension url = url" if "CHR ''.'' \<notin> set url"
  proof -
    have tw: "takeWhile ?P (rev url) = rev url"
      using that by (intro takeWhile_eq_all_conv[THEN iffD2]) auto
    show ?thesis
      by (simp only: ext tw rev_rev_ident)
  qed
  have dot: "\<exists>pre. url = pre @ ''.'' @ get_file_extension url" if "CHR ''.'' \<in> set url"
  proof -
    have ne: "dropWhile ?P (rev url) \<noteq> []"
      using that by simp
    then obtain y ys where d: "dropWhile ?P (rev url) = y # ys"
      by (cases "dropWhile ?P (rev url)") auto
    have "\<not> ?P y"
      using hd_dropWhile[OF ne] d by simp
    then have y: "y = CHR ''.''" by simp
    have "rev url = takeWhile ?P (rev url) @ y # ys"
      using takeWhile_dropWhile_id[of ?P "rev url"] d by simp
    then have "url = rev ys @ ''.'' @ rev (takeWhile ?P (rev url))"
      using y by (metis append_Cons append_Nil append_assoc rev.simps(2) rev_append rev_rev_ident)
    then show ?thesis
      unfolding ext by blast
  qed
  show ?thesis
    using nodot whole dot by (simp add: get_file_extension_def)
qed

theorem get_file_extension_last_segment_witness:
  "CHR ''.'' \<in> set ''https://x.com/a.b/comic.jpeg''
   \<and> (\<exists>pre. ''https://x.com/a.b/comic.jpeg'' = pre @ ''.'' @ ''jpeg'')
   \<and> get_file_extension ''https://x.com/a.b/comic.jpeg'' = ''jpeg''
   \<and> CHR ''.'' \<notin> set ''localhost/comic''
   \<and> get_file_extension ''localhost/comic'' = ''localhost/comic''"
proof -
  have v: "get_file_extension ''https://x.com/a.b/comic.jpeg'' = ''jpeg''"
    by (simp add: get_file_extension_def)
  show ?thesis
    using get_file_extension_last_segment [of "''https://x.com/a.b/comic.jpeg''"]
      get_file_extension_last_segment [of "''localhost/comic''"]
    unfolding v by simp
qed

section \<open>Extraction from a parsed document\<close>

lemma extract_try_bs4:
  "extract_try bs4 soup =
     (case find (\<lambda>t. has_name ''div'' t \<and> has_id ''cc-comicbody'' t) (descendants soup) of
        None \<Rightarrow> Inr None
      | Some cd \<Rightarrow>
          (case find (has_name ''img'') (descendants cd) of
             None \<Rightarrow> Inr None
           | Some img \<Rightarrow>
               (case map_of (tag_attrs img) ''src'' of
                  None \<Rightarrow> Inr None
                | Some url \<Rightarrow>
                    and_then (extract_blog_area bs4 soup) (\<lambda>(t, d).
                      Inr (Some \<lparr> image_url = url, title = t, date = d,
                        hover_text = (case map_of (tag_attrs img) ''title'' of
                                        None \<Rightarrow> '''' | Some h \<Rightarrow> h) \<rparr>)))))"
  by (simp add: extract_try_def bs4_def and_then_def split: option.splits)

lemma extract_title_bs4: "\<exists>t. extract_title bs4 ba = Inr t"
  by (simp add: extract_title_def bs4_def and_then_def split: option.splits)

lemma extract_date_bs4: "\<exists>t. extract_date bs4 ba = Inr t"
  by (simp add: extract_date_def bs4_def and_then_def split: option.splits)

lemma extract_blog_area_bs4: "\<exists>t d. extract_blog_area bs4 soup = Inr (t, d)"
proof (cases "find (\<lambda>t. has_name ''div'' t \<and> has_id ''blogarea'' t) (descendants soup)")
  case None
  then show ?thesis
    by (simp add: extract_blog_area_def bs4_def and_then_def)
next
  case (Some ba)
  obtain t where t: "extract_title bs4 ba = Inr t"
    using extract_title_bs4 by blast
  obtain d where d: "extract_date bs4 ba = Inr d"
    using extract_date_bs4 by blast
  have "find_by_id bs4 soup ''div'' ''blogarea'' = Inr (Some ba)"
    using Some by (simp add: bs4_def)
  then show ?thesis
    by (simp add: extract_blog_area_def and_then_def t d)
qed

lemma extract_blog_area_absent:
  assumes "\<forall>t \<in> set (descendants soup). \<not> (has_name ''div'' t \<and> has_id ''blogarea'' t)"
  shows "extract_blog_area bs4 soup = Inr (''unknown'', ''unknown'')"
proof -
  have "find (\<lambda>t. has_name ''div'' t \<and> has_id ''blogarea'' t) (descendants soup) = None"
    using assms by (simp add: find_None_iff)
  then show ?thesis
    by (simp add: extract_blog_area_def bs4_def and_then_def)
qed


text \<open>
  C2, as the code has it. Whenever \<open>extract_comic_data\<close> returns a record for a parsed
  document, the record's \<open>image_url\<close> is the value of the \<open>src\<close> attribute of the first
  \<open>img\<close> element inside the first comic-body container. Nothing makes that value
  non-empty.
\<close>

theorem extract_image_url_is_src:
  assumes "extract_comic_data bs4 soup = Inr (Some r)"
  shows "\<exists>cd img.
           find (\<lambda>t. has_name ''div'' t \<and> has_id ''cc-comicbody'' t) (descendants soup) = Some cd
           \<and> find (has_name ''img'') (descendants cd) = Some img
           \<and> map_of (tag_attrs img) ''src'' = Some (image_url r)"
proof -
  obtain t d where b: "extract_blog_area bs4 soup = Inr (t, d)"
    using extract_blog_area_bs4 by blast
  show ?thesis
    using assms
    by (auto simp add: extract_comic_data_def extract_try_bs4 b and_then_def
        split: option.splits)
qed

theorem extract_image_url_is_src_witness:
  "\<exists>cd img.
     find (\<lambda>t. has_name ''div'' t \<and> has_id ''cc-comicbody'' t)
       (descendants
         (Tag ''[document]'' []
           [Tag ''div'' [(''id'', ''cc-comicbody'')]
              [Tag ''img'' [(''src'', ''//x.org/c.png''), (''title'', ''funny'')] []]])) = Some cd
     \<and> find (has_name ''img'') (descendants cd) = Some img
     \<and> map_of (tag_attrs img) ''src'' = Some ''//x.org/c.png''"
proof -
  have h: "extract_comic_data bs4
             (Tag ''[document]'' []
               [Tag ''div'' [(''id'', ''cc-comicbody'')]
                  [Tag ''img'' [(''src'', ''//x.org/c.png''), (''title'', ''funny'')] []]])
           = Inr (Some \<lparr> image_url = ''//x.org/c.png'', title = ''unknown'',
                         date = ''unknown'', hover_text = ''funny'' \<rparr>)"
    unfolding extract_comic_data_def extract_try_bs4
    by (simp add: extract_blog_area_def bs4_def and_then_def has_id_def)
  show ?thesis
    using extract_image_url_is_src [OF h] by simp
qed

text \<open>
  C2 as stated fails: an \<open>img\<close> whose \<open>src\<close> attribute is the empty string passes the
  test of line 75, and the record returned has an empty \<open>image_url\<close>.
\<close>

theorem extract_empty_image_url:
  "extract_comic_data bs4
     (Tag ''[document]'' []
       [Tag ''div'' [(''id'', ''cc-comicbody'')] [Tag ''img'' [(''src'', '''')] []]])
   = Inr (Some \<lparr> image_url = '''', title = ''unknown'', date = ''unknown'', hover_text = '''' \<rparr>)"
  unfolding extract_comic_data_def extract_try_bs4
  by (simp add: extract_blog_area_def bs4_def and_then_def has_id_def)

text \<open>
  C3. For a parsed document no descendant of which is a \<open>div\<close> with the comic-body id,
  \<open>extract_comic_data\<close> returns \<open>None\<close>; it raises nothing.
\<close>

theorem extract_without_comic_body:
  assumes "\<forall>t \<in> set (descendants soup). \<not> (has_name ''div'' t \<and> has_id ''cc-comicbody'' t)"
  shows "extract_comic_data bs4 soup = Inr None"
proof -
  have "find (\<lambda>t. has_name ''div'' t \<and> has_id ''cc-comicbody'' t) (descendants soup) = None"
    using assms by (simp add: find_None_iff)
  then show ?thesis
    by (simp add: extract_comic_data_def extract_try_bs4)
qed

theorem extract_without_comic_body_witness:
  "extract_comic_data bs4
     (Tag ''[document]'' []
       [Tag ''div'' [(''id'', ''blogarea'')] [NavigableString ''news''],
        Tag ''img'' [(''src'', ''//x.org/c.png'')] []])
   = Inr None"
proof -
  have h: "\<forall>t \<in> set (descendants
                (Tag ''[document]'' []
                  [Tag ''div'' [(''id'', ''blogarea'')] [NavigableString ''news''],
                   Tag ''img'' [(''src'', ''//x.org/c.png'')] []])).
             \<not> (has_name ''div'' t \<and> has_id ''cc-comicbody'' t)"
    by (simp add: has_id_def)
  show ?thesis
    by (rule extract_without_comic_body [OF h])
qed

text \<open>
  C4. For a parsed document whose comic-body container is found, with its image element
  carrying a \<open>src\<close> attribute, and no descendant of which is a \<open>div\<close> with the blog-area
  id, \<open>extract_comic_data\<close> returns a record: the title and the date are \<open>"unknown"\<close>,
  and \<open>image_url\<close> is the value of the \<open>src\<close> attribute.
\<close>

theorem extract_without_blog_area:
  assumes "find (\<lambda>t. has_name ''div'' t \<and> has_id ''cc-comicbody'' t) (descendants soup) = Some cd"
    and "find (has_name ''img'') (descendants cd) = Some img"
    and "map_of (tag_attrs img) ''src'' = Some url"
    and "\<forall>t \<in> set (descendants soup). \<not> (has_name ''div'' t \<and> has_id ''blogarea'' t)"
  shows "extract_comic_data bs4 soup =
           Inr (Some \<lparr> image_url = url, title = ''unknown'', date = ''unknown'',
                       hover_text = (case map_of (tag_attrs img) ''title'' of
                                       None \<Rightarrow> '''' | Some h \<Rightarrow> h) \<rparr>)"
  using assms(1-3) extract_blog_area_absent [OF assms(4)]
  by (simp add: extract_comic_data_def extract_try_bs4 and_then_def)

theorem extract_without_blog_area_witness:
  "extract_comic_data bs4
     (Tag ''[document]'' []
       [Tag ''div'' [(''id'', ''cc-comicbody'')]
          [Tag ''img'' [(''src'', ''//x.org/c.png''), (''title'', ''funny'')] []],
        Tag ''div'' [(''class'', ''cc-newsheader'')] [Tag ''a'' [] [NavigableString ''T'']]])
   = Inr (Some \<lparr> image_url = ''//x.org/c.png'', title = ''unknown'', date = ''unknown'',
                 hover_text = ''funny'' \<rparr>)"
proof -
  let ?img = "Tag ''img'' [(''src'', ''//x.org/c.png''), (''title'', ''funny'')] []"
  let ?cd = "Tag ''div'' [(''id'', ''cc-comicbody'')] [?img]"
  let ?soup = "Tag ''[document]'' []
       [?cd, Tag ''div'' [(''class'', ''cc-newsheader'')] [Tag ''a'' [] [NavigableString ''T'']]]"
  have h1: "find (\<lambda>t. has_name ''div'' t \<and> has_id ''cc-comicbody'' t) (descendants ?soup)
              = Some ?cd"
    by (simp add: has_id_def)
  have h2: "find (has_name ''img'') (descendants ?cd) = Some ?img"
    by simp
  have h3: "map_of (tag_attrs ?img) ''src'' = Some ''//x.org/c.png''"
    by simp
  have h4: "\<forall>t \<in> set (descendants ?soup). \<not> (has_name ''div'' t \<and> has_id ''blogarea'' t)"
    by (simp add: has_id_def)
  show ?thesis
    using extract_without_blog_area [OF h1 h2 h3 h4] by simp
qed

section \<open>Errors raised while the blog area is read\<close>



section \<open>The pipeline\<close>

lemma startswith_prefix: "startswith s p = prefix p s"
proof
  assume "startswith s p"
  then have "take (length p) s = p"
    by (simp add: startswith_def)
  then show "prefix p s"
    by (metis take_is_prefix)
next
  assume "prefix p s"
  then obtain r where "s = p @ r"
    by (auto simp add: prefix_def)
  then show "startswith s p"
    by (simp add: startswith_def)
qed

lemma fetch_webpage_written: "fetch_webpage e url w = (r, w') \<Longrightarrow> written w' = written w"
  by (auto simp add: fetch_webpage_def http_get_def split: http_result.splits if_splits sum.splits)

lemma download_image_written: "download_image e url w = (r, w') \<Longrightarrow> written w' = written w"
  by (auto simp add: download_image_def http_get_def split: http_result.splits if_splits)

lemma write_file_written:
  "write_file e path data w = (r, w') \<Longrightarrow>
     written w' = written w
     \<or> (r \<noteq> Inr True \<and> (\<exists>c. written w' = written w @ [(path, c)]))
     \<or> (r = Inr True \<and> written w' = written w @ [(path, data)])"
  by (auto simp add: write_file_def split: io_outcome.splits)

lemma write_file_True:
  "write_file e path data w = (Inr True, w') \<Longrightarrow> written w' = written w @ [(path, data)]"
  by (auto simp add: write_file_def split: io_outcome.splits)

lemma get_current_comic_after_download:
  assumes "fetch_webpage e EXPLOSM_BASE_URL w = (Inr (Some soup), w1)"
    and "extract_comic_data bs4 soup = Inr (Some cd)"
    and "download_image e (image_url cd) w1 = (Some data, w2)"
    and "b = (if sanitize_filename (title cd) = ''unknown'' then ''smbc_comic''
              else sanitize_filename (title cd))"
  shows "get_current_comic e w =
           (case write_file e (b @ ''.'' @ get_file_extension (image_url cd)) data w2 of
              (Inl x, w3) \<Rightarrow> (Inl x, w3)
            | (Inr False, w3) \<Rightarrow> (Inr False, w3)
            | (Inr True, w3) \<Rightarrow> write_file e (b @ ''_metadata.txt'') (metadata_text cd) w3)"
  using assms
  by (auto simp add: get_current_comic_def Let_def save_image_def
      split: prod.splits sum.splits bool.splits)

text \<open>
  C8. \<open>download_image\<close> requests \<open>https:\<close> followed by the URL when the URL starts with
  \<open>//\<close>, and the URL as it is otherwise.
\<close>

theorem download_image_requests_resolved_url:
  "(prefix ''//'' url \<longrightarrow>
      requested (snd (download_image e url w)) = requested w @ [''https:'' @ url])
   \<and> (\<not> prefix ''//'' url \<longrightarrow>
      requested (snd (download_image e url w)) = requested w @ [url])"
  by (auto simp add: download_image_def http_get_def resolve_url_def startswith_prefix
      split: http_result.splits)

theorem download_image_requests_resolved_url_witness:
  "requested (snd (download_image
      \<lparr> net = (\<lambda>n u. Response 200 '''' ''PNG''),
        html_parser = (\<lambda>t. Inr (NavigableString t)), disk = (\<lambda>p d. WriteOk) \<rparr>
      ''//example.com/img.png'' \<lparr> requested = [], written = [] \<rparr>))
     = [''https://example.com/img.png'']
   \<and> requested (snd (download_image
      \<lparr> net = (\<lambda>n u. Response 200 '''' ''PNG''),
        html_parser = (\<lambda>t. Inr (NavigableString t)), disk = (\<lambda>p d. WriteOk) \<rparr>
      ''https://example.com/img.png'' \<lparr> requested = [], written = [] \<rparr>))
     = [''https://example.com/img.png'']"
proof -
  let ?e = "\<lparr> net = (\<lambda>n u. Response 200 '''' ''PNG''),
             html_parser = (\<lambda>t. Inr (NavigableString t)), disk = (\<lambda>p d. WriteOk) \<rparr>"
  let ?w = "\<lparr> requested = [], written = [] \<rparr>"
  have h1: "prefix ''//'' ''//example.com/img.png''"
    by simp
  have h2: "\<not> prefix ''//'' ''https://example.com/img.png''"
    by simp
  show ?thesis
    using download_image_requests_resolved_url
        [of "''//example.com/img.png''" ?e ?w, THEN conjunct1, rule_format, OF h1]
      download_image_requests_resolved_url
        [of "''https://example.com/img.png''" ?e ?w, THEN conjunct2, rule_format, OF h2]
    by simp
qed

text \<open>
  C7. In a run of the pipeline in which the page is fetched, the record extracted and the
  image downloaded, the base filename is the sanitized title when that differs from
  \<open>"unknown"\<close> and \<open>"smbc_comic"\<close> when it equals \<open>"unknown"\<close>: the outcome of the run is
  decided by the files of that base name. When the image file of that name with the
  extension and the metadata file of that name with \<open>_metadata.txt\<close> can be written, the
  run succeeds and has written these two files; when the image file of that name cannot be
  opened, the run fails and has written nothing; when the image file is written and the
  metadata file of that name cannot be opened, the run fails and has written the image.
\<close>

theorem get_current_comic_base_filename:
  assumes "fetch_webpage e EXPLOSM_BASE_URL w = (Inr (Some soup), w1)"
    and "extract_comic_data bs4 soup = Inr (Some cd)"
    and "download_image e (image_url cd) w1 = (Some data, w2)"
    and "b = (if sanitize_filename (title cd) = ''unknown'' then ''smbc_comic''
              else sanitize_filename (title cd))"
  shows "(disk e (b @ ''.'' @ get_file_extension (image_url cd)) data = WriteOk
          \<and> disk e (b @ ''_metadata.txt'') (metadata_text cd) = WriteOk \<longrightarrow>
            get_current_comic e w =
              (Inr True,
               w2\<lparr> written := written w2 @
                     [(b @ ''.'' @ get_file_extension (image_url cd), data),
                      (b @ ''_metadata.txt'', metadata_text cd)] \<rparr>))
       \<and> (disk e (b @ ''.'' @ get_file_extension (image_url cd)) data = OpenFails \<longrightarrow>
            get_current_comic e w = (Inr False, w2))
       \<and> (disk e (b @ ''.'' @ get_file_extension (image_url cd)) data = WriteOk
          \<and> disk e (b @ ''_metadata.txt'') (metadata_text cd) = OpenFails \<longrightarrow>
            get_current_comic e w =
              (Inr False,
               w2\<lparr> written := written w2 @
                     [(b @ ''.'' @ get_file_extension (image_url cd), data)] \<rparr>))"
  unfolding get_current_comic_after_download [OF assms]
  by (simp add: write_file_def)

theorem get_current_comic_base_filename_witness:
  "get_current_comic
     \<lparr> net = (\<lambda>n u. Response 200 ''<html>'' ''PNG''),
       html_parser = (\<lambda>t. Inr
         (Tag ''[document]'' []
           [Tag ''div'' [(''id'', ''cc-comicbody'')]
              [Tag ''img'' [(''src'', ''//x.org/c.png''), (''title'', ''funny'')] []],
            Tag ''div'' [(''id'', ''blogarea'')]
              [Tag ''div'' [(''class'', ''cc-newsheader'')]
                 [Tag ''a'' [] [NavigableString ''un.known'']],
               Tag ''div'' [(''class'', ''cc-publishtime'')]
                 [NavigableString '' March 3rd, 2024 '']]])),
       disk = (\<lambda>p d. WriteOk) \<rparr>
     \<lparr> requested = [], written = [] \<rparr>
   = (Inr True,
      \<lparr> requested = [''https://www.smbc-comics.com/'', ''https://x.org/c.png''],
        written =
          [(''smbc_comic.png'', ''PNG''),
           (''smbc_comic_metadata.txt'',
            ''Title: un.known\<newline>Date: March 3rd, 2024\<newline>Hover Text: funny\<newline>Image URL: //x.org/c.png\<newline>'')] \<rparr>)
   \<and> get_current_comic
     \<lparr> net = (\<lambda>n u. Response 200 ''<html>'' ''PNG''),
       html_parser = (\<lambda>t. Inr
         (Tag ''[document]'' []
           [Tag ''div'' [(''id'', ''cc-comicbody'')]
              [Tag ''img'' [(''src'', ''//x.org/c.png''), (''title'', ''funny'')] []],
            Tag ''div'' [(''id'', ''blogarea'')]
              [Tag ''div'' [(''class'', ''cc-newsheader'')]
                 [Tag ''a'' [] [NavigableString ''un.known'']],
               Tag ''div'' [(''class'', ''cc-publishtime'')]
                 [NavigableString '' March 3rd, 2024 '']]])),
       disk = (\<lambda>p d. if p = ''smbc_comic.png'' then OpenFails else WriteOk) \<rparr>
     \<lparr> requested = [], written = [] \<rparr>
   = (Inr False,
      \<lparr> requested = [''https://www.smbc-comics.com/'', ''https://x.org/c.png''],
        written = [] \<rparr>)
   \<and> get_current_comic
     \<lparr> net = (\<lambda>n u. Response 200 ''<html>'' ''PNG''),
       html_parser = (\<lambda>t. Inr
         (Tag ''[document]'' []
           [Tag ''div'' [(''id'', ''cc-comicbody'')]
              [Tag ''img'' [(''src'', ''//x.org/c.png''), (''title'', ''funny'')] []],
            Tag ''div'' [(''id'', ''blogarea'')]
              [Tag ''div'' [(''class'', ''cc-newsheader'')]
                 [Tag ''a'' [] [NavigableString ''Comic: 1/2'']],
               Tag ''div'' [(''class'', ''cc-publishtime'')]
                 [NavigableString '' March 3rd, 2024 '']]])),
       disk = (\<lambda>p d. if p = ''Comic 12_metadata.txt'' then OpenFails else WriteOk) \<rparr>
     \<lparr> requested = [], written = [] \<rparr>
   = (Inr False,
      \<lparr> requested = [''https://www.smbc-comics.com/'', ''https://x.org/c.png''],
        written = [(''Comic 12.png'', ''PNG'')] \<rparr>)"
proof -
  let ?doc = "\<lambda>t. Tag ''[document]'' []
           [Tag ''div'' [(''id'', ''cc-comicbody'')]
              [Tag ''img'' [(''src'', ''//x.org/c.png''), (''title'', ''funny'')] []],
            Tag ''div'' [(''id'', ''blogarea'')]
              [Tag ''div'' [(''class'', ''cc-newsheader'')]
                 [Tag ''a'' [] [NavigableString t]],
               Tag ''div'' [(''class'', ''cc-publishtime'')]
                 [NavigableString '' March 3rd, 2024 '']]]"
  let ?cd = "\<lambda>t. \<lparr> image_url = ''//x.org/c.png'', title = t,
                     date = ''March 3rd, 2024'', hover_text = ''funny'' \<rparr>"
  let ?e1 = "\<lparr> net = (\<lambda>n u. Response 200 ''<html>'' ''PNG''),
              html_parser = (\<lambda>t. Inr (?doc ''un.known'')), disk = (\<lambda>p d. WriteOk) \<rparr>"
  let ?e2 = "\<lparr> net = (\<lambda>n u. Response 200 ''<html>'' ''PNG''),
              html_parser = (\<lambda>t. Inr (?doc ''un.known'')),
              disk = (\<lambda>p d. if p = ''smbc_comic.png'' then OpenFails else WriteOk) \<rparr>"
  let ?e3 = "\<lparr> net = (\<lambda>n u. Response 200 ''<html>'' ''PNG''),
              html_parser = (\<lambda>t. Inr (?doc ''Comic: 1/2'')),
              disk = (\<lambda>p d. if p = ''Comic 12_metadata.txt'' then OpenFails else WriteOk) \<rparr>"
  let ?w = "\<lparr> requested = [], written = [] \<rparr>"
  let ?w1 = "\<lparr> requested = [''https://www.smbc-comics.com/''], written = [] \<rparr>"
  let ?w2 = "\<lparr> requested = [''https://www.smbc-comics.com/'', ''https://x.org/c.png''],
               written = [] \<rparr>"
  note net = fetch_webpage_def download_image_def http_get_def raises_for_status_def
    EXPLOSM_BASE_URL_def resolve_url_def startswith_def
  have x: "extract_comic_data bs4 (?doc t) = Inr (Some (?cd (strip t)))" for t
    unfolding extract_comic_data_def extract_try_bs4
    by (simp add: extract_blog_area_def extract_title_def extract_date_def bs4_def
        and_then_def has_id_def has_class_def strip_def isspace_def)
  have s1: "strip ''un.known'' = ''un.known''" and s3: "strip ''Comic: 1/2'' = ''Comic: 1/2''"
    by (simp_all add: strip_def isspace_def)
  have u1: "sanitize_filename ''un.known'' = ''unknown''"
    and u3: "sanitize_filename ''Comic: 1/2'' = ''Comic 12''"
    by (simp_all add: sanitize_filename_filter INVALID_FILENAME_CHARS_def)
  have g: "get_file_extension ''//x.org/c.png'' = ''png''"
    by (simp add: get_file_extension_def)
  have r1: "get_current_comic ?e1 ?w =
              (Inr True, ?w2\<lparr> written := written ?w2 @
                 [(''smbc_comic'' @ ''.'' @ get_file_extension (image_url (?cd ''un.known'')),
                   ''PNG''),
                  (''smbc_comic'' @ ''_metadata.txt'', metadata_text (?cd ''un.known''))] \<rparr>)"
    using get_current_comic_base_filename [where e = ?e1 and w = ?w
        and soup = "?doc ''un.known''" and ?w1.0 = ?w1 and cd = "?cd ''un.known''"
        and data = "''PNG''" and ?w2.0 = ?w2 and b = "''smbc_comic''"]
      x [of "''un.known''"]
    by (simp add: net s1 u1)
  have r2: "get_current_comic ?e2 ?w = (Inr False, ?w2)"
    using get_current_comic_base_filename [where e = ?e2 and w = ?w
        and soup = "?doc ''un.known''" and ?w1.0 = ?w1 and cd = "?cd ''un.known''"
        and data = "''PNG''" and ?w2.0 = ?w2 and b = "''smbc_comic''"]
      x [of "''un.known''"]
    by (simp add: net s1 u1 g)
  have r3: "get_current_comic ?e3 ?w =
              (Inr False, ?w2\<lparr> written := written ?w2 @
                 [(''Comic 12'' @ ''.'' @ get_file_extension (image_url (?cd ''Comic: 1/2'')),
                   ''PNG'')] \<rparr>)"
    using get_current_comic_base_filename [where e = ?e3 and w = ?w
        and soup = "?doc ''Comic: 1/2''" and ?w1.0 = ?w1 and cd = "?cd ''Comic: 1/2''"
        and data = "''PNG''" and ?w2.0 = ?w2 and b = "''Comic 12''"]
      x [of "''Comic: 1/2''"]
    by (simp add: net s3 u3 g)
  show ?thesis
    using r1 r2 r3 by (simp add: g metadata_text_def)
qed

lemma get_current_comic_writes:
  "written (snd (get_current_comic e w)) = written w
   \<or> (\<exists>soup w1 cd data w2 b.
         fetch_webpage e EXPLOSM_BASE_URL w = (Inr (Some soup), w1)
         \<and> extract_comic_data bs4 soup = Inr (Some cd)
         \<and> download_image e (image_url cd) w1 = (Some data, w2)
         \<and> ((\<exists>c. written (snd (get_current_comic e w)) = written w @
                [(b @ ''.'' @ get_file_extension (image_url cd), c)])
            \<or> (\<exists>m. written (snd (get_current_comic e w)) = written w @
                [(b @ ''.'' @ get_file_extension (image_url cd), data),
                 (b @ ''_metadata.txt'', m)])))"
proof (cases "fetch_webpage e EXPLOSM_BASE_URL w")
  case (Pair fr w1)
  note f = this
  have w1: "written w1 = written w"
    using fetch_webpage_written [OF f] .
  show ?thesis
  proof (cases fr)
    case (Inl x)
    then show ?thesis
      using f w1 by (simp add: get_current_comic_def)
  next
    case (Inr so)
    note i = this
    show ?thesis
    proof (cases so)
      case None
      then show ?thesis
        using f i w1 by (simp add: get_current_comic_def)
    next
      case (Some soup)
      note s = this
      show ?thesis
      proof (cases "extract_comic_data bs4 soup")
        case (Inl x)
        then show ?thesis
          using f i s w1 by (simp add: get_current_comic_def)
      next
        case (Inr r)
        note x = this
        show ?thesis
        proof (cases r)
          case None
          then show ?thesis
            using f i s x w1 by (simp add: get_current_comic_def)
        next
          case (Some cd)
          note c = this
          show ?thesis
          proof (cases "download_image e (image_url cd) w1")
            case (Pair dr w2)
            note d = this
            have w2: "written w2 = written w"
              using download_image_written [OF d] w1 by simp
            show ?thesis
            proof (cases dr)
              case None
              then show ?thesis
                using f i s x c d w2 by (simp add: get_current_comic_def)
            next
              case (Some data)
              define b where "b = (if sanitize_filename (title cd) = ''unknown''
                then ''smbc_comic'' else sanitize_filename (title cd))"
              let ?ip = "b @ ''.'' @ get_file_extension (image_url cd)"
              let ?mp = "b @ ''_metadata.txt''"
              have pre: "fetch_webpage e EXPLOSM_BASE_URL w = (Inr (Some soup), w1)"
                "extract_comic_data bs4 soup = Inr (Some cd)"
                "download_image e (image_url cd) w1 = (Some data, w2)"
                using f i s x c d Some by simp_all
              note run = get_current_comic_after_download [OF pre b_def]
              obtain r3 w3 where i3: "write_file e ?ip data w2 = (r3, w3)"
                by (cases "write_file e ?ip data w2")
              obtain r4 w4 where i4: "write_file e ?mp (metadata_text cd) w3 = (r4, w4)"
                by (cases "write_file e ?mp (metadata_text cd) w3")
              have "written (snd (get_current_comic e w)) = written w
                    \<or> (\<exists>c. written (snd (get_current_comic e w)) = written w @ [(?ip, c)])
                    \<or> (\<exists>m. written (snd (get_current_comic e w))
                          = written w @ [(?ip, data), (?mp, m)])"
              proof (cases "r3 = Inr True")
                case False
                then have "get_current_comic e w = (r3, w3)"
                  unfolding run i3 by (cases r3) auto
                then show ?thesis
                  using write_file_written [OF i3] False w2 by auto
              next
                case True
                then have g: "get_current_comic e w = (r4, w4)"
                  unfolding run i3 by (simp add: i4)
                have "written w3 = written w @ [(?ip, data)]"
                  using write_file_True [of e ?ip data w2 w3] i3 True w2 by simp
                then show ?thesis
                  using write_file_written [OF i4] g by auto
              qed
              then show ?thesis
                using pre by blast
            qed
          qed
        qed
      qed
    qed
  qed
qed

text \<open>
  C10. A run of \<open>get_current_comic\<close> in which the page fetch, the extraction or the image
  download returns \<open>None\<close> returns \<open>False\<close> and has written no file; a run in which the
  page fetch raises has written no file either. Whatever the run does, return or raise,
  it has written nothing, or, after a download that succeeded, the image file alone or
  the image file followed by the metadata file.
\<close>

theorem early_failure_writes_no_file:
  "(fetch_webpage e EXPLOSM_BASE_URL w = (Inr None, w1) \<longrightarrow>
      get_current_comic e w = (Inr False, w1) \<and> written w1 = written w)
   \<and> (fetch_webpage e EXPLOSM_BASE_URL w = (Inr (Some soup), w1)
        \<and> extract_comic_data bs4 soup = Inr None \<longrightarrow>
      get_current_comic e w = (Inr False, w1) \<and> written w1 = written w)
   \<and> (fetch_webpage e EXPLOSM_BASE_URL w = (Inr (Some soup), w1)
        \<and> extract_comic_data bs4 soup = Inr (Some cd)
        \<and> download_image e (image_url cd) w1 = (None, w2) \<longrightarrow>
      get_current_comic e w = (Inr False, w2) \<and> written w2 = written w)
   \<and> (fetch_webpage e EXPLOSM_BASE_URL w = (Inl x, w1) \<longrightarrow>
      get_current_comic e w = (Inl x, w1) \<and> written w1 = written w)
   \<and> (written (snd (get_current_comic e w)) = written w
      \<or> (\<exists>soup w1 cd data w2 b.
            fetch_webpage e EXPLOSM_BASE_URL w = (Inr (Some soup), w1)
            \<and> extract_comic_data bs4 soup = Inr (Some cd)
            \<and> download_image e (image_url cd) w1 = (Some data, w2)
            \<and> ((\<exists>c. written (snd (get_current_comic e w)) = written w @
                   [(b @ ''.'' @ get_file_extension (image_url cd), c)])
               \<or> (\<exists>m. written (snd (get_current_comic e w)) = written w @
                   [(b @ ''.'' @ get_file_extension (image_url cd), data),
                    (b @ ''_metadata.txt'', m)]))))"
proof -
  have a: "get_current_comic e w = (Inr False, w1) \<and> written w1 = written w"
    if "fetch_webpage e EXPLOSM_BASE_URL w = (Inr None, w1)"
    using that fetch_webpage_written [OF that] by (simp add: get_current_comic_def)
  have b: "get_current_comic e w = (Inr False, w1) \<and> written w1 = written w"
    if "fetch_webpage e EXPLOSM_BASE_URL w = (Inr (Some soup), w1)"
      and "extract_comic_data bs4 soup = Inr None"
    using that fetch_webpage_written [OF that(1)] by (simp add: get_current_comic_def)
  have c: "get_current_comic e w = (Inr False, w2) \<and> written w2 = written w"
    if "fetch_webpage e EXPLOSM_BASE_URL w = (Inr (Some soup), w1)"
      and "extract_comic_data bs4 soup = Inr (Some cd)"
      and "download_image e (image_url cd) w1 = (None, w2)"
    using that fetch_webpage_written [OF that(1)] download_image_written [OF that(3)]
    by (simp add: get_current_comic_def)
  have d: "get_current_comic e w = (Inl x, w1) \<and> written w1 = written w"
    if "fetch_webpage e EXPLOSM_BASE_URL w = (Inl x, w1)"
    using that fetch_webpage_written [OF that] by (simp add: get_current_comic_def)
  show ?thesis
    using a b c d get_current_comic_writes [of e w] by blast
qed

theorem early_failure_writes_no_file_witness:
  "get_current_comic
     \<lparr> net = (\<lambda>n u. RequestFailed), html_parser = (\<lambda>t. Inr (NavigableString t)),
       disk = (\<lambda>p d. WriteOk) \<rparr>
     \<lparr> requested = [], written = [(''old.png'', ''X'')] \<rparr>
   = (Inr False, \<lparr> requested = [''https://www.smbc-comics.com/''],
                   written = [(''old.png'', ''X'')] \<rparr>)
   \<and> get_current_comic
     \<lparr> net = (\<lambda>n u. Response 200 ''<p>'' ''''),
       html_parser = (\<lambda>t. Inr (Tag ''[document]'' [] [Tag ''p'' [] []])),
       disk = (\<lambda>p d. WriteOk) \<rparr>
     \<lparr> requested = [], written = [(''old.png'', ''X'')] \<rparr>
   = (Inr False, \<lparr> requested = [''https://www.smbc-comics.com/''],
                   written = [(''old.png'', ''X'')] \<rparr>)
   \<and> get_current_comic
     \<lparr> net = (\<lambda>n u. if n = 0 then Response 200 ''<div>'' '''' else Response 404 '''' ''''),
       html_parser = (\<lambda>t. Inr
         (Tag ''[document]'' []
           [Tag ''div'' [(''id'', ''cc-comicbody'')]
              [Tag ''img'' [(''src'', ''//x.org/c.png'')] []]])),
       disk = (\<lambda>p d. WriteOk) \<rparr>
     \<lparr> requested = [], written = [(''old.png'', ''X'')] \<rparr>
   = (Inr False, \<lparr> requested = [''https://www.smbc-comics.com/'', ''https://x.org/c.png''],
                   written = [(''old.png'', ''X'')] \<rparr>)
   \<and> get_current_comic
     \<lparr> net = (\<lambda>n u. Response 200 ''<![a b]>x'' ''''),
       html_parser = (\<lambda>t. Inl AssertionError), disk = (\<lambda>p d. WriteOk) \<rparr>
     \<lparr> requested = [], written = [(''old.png'', ''X'')] \<rparr>
   = (Inl AssertionError, \<lparr> requested = [''https://www.smbc-comics.com/''],
                            written = [(''old.png'', ''X'')] \<rparr>)"
proof -
  let ?w = "\<lparr> requested = [], written = [(''old.png'', ''X'')] \<rparr>"
  let ?w1 = "\<lparr> requested = [''https://www.smbc-comics.com/''],
               written = [(''old.png'', ''X'')] \<rparr>"
  let ?w2 = "\<lparr> requested = [''https://www.smbc-comics.com/'', ''https://x.org/c.png''],
               written = [(''old.png'', ''X'')] \<rparr>"
  let ?e1 = "\<lparr> net = (\<lambda>n u. RequestFailed), html_parser = (\<lambda>t. Inr (NavigableString t)),
              disk = (\<lambda>p d. WriteOk) \<rparr>"
  let ?d2 = "Tag ''[document]'' [] [Tag ''p'' [] []]"
  let ?e2 = "\<lparr> net = (\<lambda>n u. Response 200 ''<p>'' ''''), html_parser = (\<lambda>t. Inr ?d2),
              disk = (\<lambda>p d. WriteOk) \<rparr>"
  let ?d3 = "Tag ''[document]'' []
           [Tag ''div'' [(''id'', ''cc-comicbody'')] [Tag ''img'' [(''src'', ''//x.org/c.png'')] []]]"
  let ?e3 = "\<lparr> net = (\<lambda>n u. if n = 0 then Response 200 ''<div>'' ''''
                            else Response 404 '''' ''''),
              html_parser = (\<lambda>t. Inr ?d3), disk = (\<lambda>p d. WriteOk) \<rparr>"
  let ?e4 = "\<lparr> net = (\<lambda>n u. Response 200 ''<![a b]>x'' ''''),
              html_parser = (\<lambda>t. Inl AssertionError), disk = (\<lambda>p d. WriteOk) \<rparr>"
  let ?cd = "\<lparr> image_url = ''//x.org/c.png'', title = ''unknown'', date = ''unknown'',
               hover_text = '''' \<rparr>"
  have f1: "fetch_webpage ?e1 EXPLOSM_BASE_URL ?w = (Inr None, ?w1)"
    by (simp add: fetch_webpage_def http_get_def EXPLOSM_BASE_URL_def)
  have f2: "fetch_webpage ?e2 EXPLOSM_BASE_URL ?w = (Inr (Some ?d2), ?w1)"
    by (simp add: fetch_webpage_def http_get_def raises_for_status_def EXPLOSM_BASE_URL_def)
  have x2: "extract_comic_data bs4 ?d2 = Inr None"
    unfolding extract_comic_data_def extract_try_bs4 by simp
  have f3: "fetch_webpage ?e3 EXPLOSM_BASE_URL ?w = (Inr (Some ?d3), ?w1)"
    by (simp add: fetch_webpage_def http_get_def raises_for_status_def EXPLOSM_BASE_URL_def)
  have x3: "extract_comic_data bs4 ?d3 = Inr (Some ?cd)"
    unfolding extract_comic_data_def extract_try_bs4
    by (simp add: extract_blog_area_def bs4_def and_then_def has_id_def)
  have d3: "download_image ?e3 (image_url ?cd) ?w1 = (None, ?w2)"
    by (simp add: download_image_def http_get_def raises_for_status_def resolve_url_def
        startswith_def)
  have f4: "fetch_webpage ?e4 EXPLOSM_BASE_URL ?w = (Inl AssertionError, ?w1)"
    by (simp add: fetch_webpage_def http_get_def raises_for_status_def EXPLOSM_BASE_URL_def)
  have r1: "get_current_comic ?e1 ?w = (Inr False, ?w1)"
    using early_failure_writes_no_file [of ?e1 ?w ?w1] f1 by blast
  have r2: "get_current_comic ?e2 ?w = (Inr False, ?w1)"
    using early_failure_writes_no_file [of ?e2 ?w ?w1 ?d2] f2 x2 by blast
  have r3: "get_current_comic ?e3 ?w = (Inr False, ?w2)"
    using early_failure_writes_no_file [of ?e3 ?w ?w1 ?d3 ?cd ?w2] f3 x3 d3 by blast
  have r4: "get_current_comic ?e4 ?w = (Inl AssertionError, ?w1)"
    using early_failure_writes_no_file [where e = ?e4 and w = ?w and ?w1.0 = ?w1
        and x = AssertionError] f4 by blast
  show ?thesis
    using r1 r2 r3 r4 by simp
qed

section \<open>The metadata file, written and read back\<close>

lemma translate_newlines_Cons:
  "c \<noteq> CHR 0x0D \<Longrightarrow> translate_newlines (c # s) = c # translate_newlines s"
  by (cases s) simp_all

lemma translate_newlines_plain: "CHR 0x0D \<notin> set s \<Longrightarrow> translate_newlines s = s"
proof (induction s)
  case Nil
  show ?case by simp
next
  case (Cons c s)
  then have "c \<noteq> CHR 0x0D"
    by auto
  with Cons show ?case
    by (simp add: translate_newlines_Cons)
qed

lemma translate_newlines_break:
  "translate_newlines (a @ CHR 0x0A # b) = translate_newlines (a @ [CHR 0x0A]) @ translate_newlines b"
proof (induction a rule: translate_newlines.induct)
  case 1
  show ?case
    by (simp add: translate_newlines_Cons)
next
  case (2 c)
  show ?case
    by (cases "c = CHR 0x0D") (simp_all add: translate_newlines_Cons)
next
  case (3 c d cs)
  then show ?case
    by (cases "c = CHR 0x0D"; cases "d = CHR 0x0A") simp_all
qed

lemma translate_newlines_ends:
  "\<exists>z. translate_newlines (a @ [CHR 0x0A]) = z @ [CHR 0x0A]"
proof (induction a rule: translate_newlines.induct)
  case 1
  show ?case by simp
next
  case (2 c)
  show ?case by simp
next
  case (3 c d cs)
  then show ?case
    by (cases "c = CHR 0x0D"; cases "d = CHR 0x0A") auto
qed

lemma split_lines_Nil: "split_lines s = [] \<longleftrightarrow> s = []"
  by (cases s) (simp_all split: list.splits)

lemma split_lines_break:
  "split_lines (x @ CHR 0x0A # y) = split_lines (x @ [CHR 0x0A]) @ split_lines y"
proof (induction x)
  case Nil
  show ?case by simp
next
  case (Cons c x)
  obtain l ls where l: "split_lines (x @ [CHR 0x0A]) = l # ls"
    using split_lines_Nil [of "x @ [CHR 0x0A]"] by (cases "split_lines (x @ [CHR 0x0A])") auto
  show ?case
    using Cons l by simp
qed

lemma split_lines_plain: "CHR 0x0A \<notin> set s \<Longrightarrow> split_lines (s @ [CHR 0x0A]) = [s @ [CHR 0x0A]]"
  by (induction s) auto

lemma file_lines_break:
  "file_lines (a @ CHR 0x0A # b) = file_lines (a @ [CHR 0x0A]) @ file_lines b"
proof -
  obtain z where z: "translate_newlines (a @ [CHR 0x0A]) = z @ [CHR 0x0A]"
    using translate_newlines_ends by blast
  have "split_lines (z @ CHR 0x0A # translate_newlines b)
          = split_lines (z @ [CHR 0x0A]) @ split_lines (translate_newlines b)"
    by (rule split_lines_break)
  moreover have "translate_newlines (a @ CHR 0x0A # b) = z @ CHR 0x0A # translate_newlines b"
    using translate_newlines_break [of a b] z by simp
  ultimately show ?thesis
    by (simp add: file_lines_def z)
qed

lemma file_lines_plain:
  assumes "CHR 0x0A \<notin> set s" and "CHR 0x0D \<notin> set s"
  shows "file_lines (s @ CHR 0x0A # b) = (s @ [CHR 0x0A]) # file_lines b"
proof -
  have "translate_newlines (s @ [CHR 0x0A]) = s @ [CHR 0x0A]"
    using assms(2) by (intro translate_newlines_plain) simp
  then have "file_lines (s @ [CHR 0x0A]) = [s @ [CHR 0x0A]]"
    using assms(1) by (simp add: file_lines_def split_lines_plain)
  then show ?thesis
    by (simp add: file_lines_break [of s b])
qed

lemma str_split1_first:
  "sep \<notin> set k \<Longrightarrow> str_split1 (k @ sep # v) sep = [k, v]"
  by (induction k) auto

lemma strip_padded:
  assumes "isspace a" and "isspace b"
  shows "strip (a # s @ [b]) = strip s"
proof (cases "\<forall>x \<in> set s. isspace x")
  case True
  then have l: "dropWhile isspace (a # s @ [b]) = []"
    using assms by simp
  have r: "dropWhile isspace s = []"
    using True by simp
  show ?thesis
    unfolding strip_def l r by simp
next
  case False
  then obtain x where "x \<in> set s" and "\<not> isspace x"
    by blast
  then have "dropWhile isspace (s @ [b]) = dropWhile isspace s @ [b]"
    by (rule dropWhile_append1)
  then show ?thesis
    using assms by (simp add: strip_def)
qed

lemma parse_line_field:
  assumes "CHR '':'' \<notin> set k"
  shows "parse_line m (k @ '': '' @ s @ ''\<newline>'') = m(strip k \<mapsto> strip s)"
proof -
  have sp: "str_split1 (k @ CHR '':'' # (CHR '' '' # s @ [CHR 0x0A])) (CHR '':'')
              = [k, CHR '' '' # s @ [CHR 0x0A]]"
    using assms by (rule str_split1_first)
  have st: "strip (CHR '' '' # s @ [CHR 0x0A]) = strip s"
    by (rule strip_padded) (simp_all add: isspace_def)
  show ?thesis
    using sp st by (simp add: parse_line_def)
qed

lemma read_metadata_text:
  assumes "CHR 0x0A \<notin> set (date cd)" and "CHR 0x0D \<notin> set (date cd)"
    and "CHR 0x0A \<notin> set (hover_text cd)" and "CHR 0x0D \<notin> set (hover_text cd)"
    and "CHR 0x0A \<notin> set (image_url cd)" and "CHR 0x0D \<notin> set (image_url cd)"
  shows "\<exists>m. read_metadata (metadata_text cd) =
           m(''Date'' \<mapsto> strip (date cd), ''Hover Text'' \<mapsto> strip (hover_text cd),
             ''Image URL'' \<mapsto> strip (image_url cd))"
proof -
  let ?l2 = "''Date: '' @ date cd"
  let ?l3 = "''Hover Text: '' @ hover_text cd"
  let ?l4 = "''Image URL: '' @ image_url cd"
  let ?step = "\<lambda>line metadata. parse_line metadata line"
  have t: "metadata_text cd =
             (''Title: '' @ title cd) @ CHR 0x0A # ?l2 @ CHR 0x0A # ?l3 @ CHR 0x0A # ?l4 @ CHR 0x0A # []"
    by (simp add: metadata_text_def)
  have e: "file_lines [] = []"
    by (simp add: file_lines_def)
  have "file_lines (?l4 @ CHR 0x0A # []) = (?l4 @ [CHR 0x0A]) # file_lines []"
    by (rule file_lines_plain) (simp_all add: assms)
  then have l4: "file_lines (?l4 @ CHR 0x0A # []) = [?l4 @ [CHR 0x0A]]"
    by (simp only: e)
  have "file_lines (?l3 @ CHR 0x0A # ?l4 @ CHR 0x0A # [])
          = (?l3 @ [CHR 0x0A]) # file_lines (?l4 @ CHR 0x0A # [])"
    by (rule file_lines_plain) (simp_all add: assms)
  then have l3: "file_lines (?l3 @ CHR 0x0A # ?l4 @ CHR 0x0A # [])
              = [?l3 @ [CHR 0x0A], ?l4 @ [CHR 0x0A]]"
    by (simp only: l4)
  have "file_lines (?l2 @ CHR 0x0A # ?l3 @ CHR 0x0A # ?l4 @ CHR 0x0A # [])
          = (?l2 @ [CHR 0x0A]) # file_lines (?l3 @ CHR 0x0A # ?l4 @ CHR 0x0A # [])"
    by (rule file_lines_plain) (simp_all add: assms)
  then have l2: "file_lines (?l2 @ CHR 0x0A # ?l3 @ CHR 0x0A # ?l4 @ CHR 0x0A # [])
              = [?l2 @ [CHR 0x0A], ?l3 @ [CHR 0x0A], ?l4 @ [CHR 0x0A]]"
    by (simp only: l3)
  have "file_lines (metadata_text cd) =
          file_lines ((''Title: '' @ title cd) @ CHR 0x0A # ?l2 @ CHR 0x0A # ?l3 @ CHR 0x0A # ?l4 @ CHR 0x0A # [])"
    by (simp only: t)
  also have "\<dots> = file_lines ((''Title: '' @ title cd) @ [CHR 0x0A])
                 @ file_lines (?l2 @ CHR 0x0A # ?l3 @ CHR 0x0A # ?l4 @ CHR 0x0A # [])"
    by (rule file_lines_break)
  also have "\<dots> = file_lines ((''Title: '' @ title cd) @ [CHR 0x0A])
                 @ [?l2 @ [CHR 0x0A], ?l3 @ [CHR 0x0A], ?l4 @ [CHR 0x0A]]"
    by (simp only: l2)
  finally have lines: "file_lines (metadata_text cd) =
                 file_lines ((''Title: '' @ title cd) @ [CHR 0x0A])
                 @ [?l2 @ [CHR 0x0A], ?l3 @ [CHR 0x0A], ?l4 @ [CHR 0x0A]]" .
  let ?m = "fold ?step (file_lines ((''Title: '' @ title cd) @ [CHR 0x0A])) Map.empty"
  have k2: "CHR '':'' \<notin> set ''Date''" and s2: "strip ''Date'' = ''Date''"
    by (simp_all add: strip_def isspace_def)
  have k3: "CHR '':'' \<notin> set ''Hover Text''" and s3: "strip ''Hover Text'' = ''Hover Text''"
    by (simp_all add: strip_def isspace_def)
  have k4: "CHR '':'' \<notin> set ''Image URL''" and s4: "strip ''Image URL'' = ''Image URL''"
    by (simp_all add: strip_def isspace_def)
  have p2: "parse_line m (?l2 @ [CHR 0x0A]) = m(''Date'' \<mapsto> strip (date cd))" for m
    using parse_line_field [OF k2, of m "date cd"] unfolding s2 by simp
  have p3: "parse_line m (?l3 @ [CHR 0x0A]) = m(''Hover Text'' \<mapsto> strip (hover_text cd))" for m
    using parse_line_field [OF k3, of m "hover_text cd"] unfolding s3 by simp
  have p4: "parse_line m (?l4 @ [CHR 0x0A]) = m(''Image URL'' \<mapsto> strip (image_url cd))" for m
    using parse_line_field [OF k4, of m "image_url cd"] unfolding s4 by simp
  have r: "read_metadata (metadata_text cd) =
          ?m(''Date'' \<mapsto> strip (date cd), ''Hover Text'' \<mapsto> strip (hover_text cd),
             ''Image URL'' \<mapsto> strip (image_url cd))"
    unfolding read_metadata_def lines fold_append
    by (simp only: fold_simps comp_apply p2 p3 p4 id_apply)
  show ?thesis
    by (rule exI [of _ ?m]) (rule r)
qed

text \<open>
  C1, as the code has it. For every record whose date, hover text and image URL contain
  no line feed and no carriage return, reading back the metadata file written from the
  record gives, under \<open>Date\<close>, the date with the white space at its two ends removed, and
  under \<open>Hover Text\<close>, the hover text with the white space at its two ends removed.
\<close>

theorem metadata_round_trip_stripped:
  assumes "CHR 0x0A \<notin> set (date cd)" and "CHR 0x0D \<notin> set (date cd)"
    and "CHR 0x0A \<notin> set (hover_text cd)" and "CHR 0x0D \<notin> set (hover_text cd)"
    and "CHR 0x0A \<notin> set (image_url cd)" and "CHR 0x0D \<notin> set (image_url cd)"
  shows "read_metadata (metadata_text cd) ''Date'' = Some (strip (date cd))
         \<and> read_metadata (metadata_text cd) ''Hover Text'' = Some (strip (hover_text cd))"
proof -
  obtain m where "read_metadata (metadata_text cd) =
           m(''Date'' \<mapsto> strip (date cd), ''Hover Text'' \<mapsto> strip (hover_text cd),
             ''Image URL'' \<mapsto> strip (image_url cd))"
    using read_metadata_text [OF assms] by blast
  then show ?thesis
    by simp
qed

theorem metadata_round_trip_stripped_witness:
  "read_metadata (metadata_text
      \<lparr> image_url = ''//cdn.example/c/today.png'', title = ''Comic: today'',
        date = ''March 3rd, 2024'', hover_text = ''funny: very'' \<rparr>) ''Date''
     = Some ''March 3rd, 2024''
   \<and> read_metadata (metadata_text
      \<lparr> image_url = ''//cdn.example/c/today.png'', title = ''Comic: today'',
        date = ''March 3rd, 2024'', hover_text = ''funny: very'' \<rparr>) ''Hover Text''
     = Some ''funny: very''"
proof -
  let ?cd = "\<lparr> image_url = ''//cdn.example/c/today.png'', title = ''Comic: today'',
               date = ''March 3rd, 2024'', hover_text = ''funny: very'' \<rparr>"
  have s1: "strip ''March 3rd, 2024'' = ''March 3rd, 2024''"
    by (simp add: strip_def isspace_def)
  have s2: "strip ''funny: very'' = ''funny: very''"
    by (simp add: strip_def isspace_def)
  have "read_metadata (metadata_text ?cd) ''Date'' = Some (strip (date ?cd))
         \<and> read_metadata (metadata_text ?cd) ''Hover Text'' = Some (strip (hover_text ?cd))"
    by (rule metadata_round_trip_stripped) simp_all
  then show ?thesis
    by (simp add: s1 s2)
qed

text \<open>
  C1 as stated fails: the hover text is written as it is and stripped when read, so one
  that starts with a space does not come back verbatim.
\<close>

theorem metadata_round_trip_strips_hover_text:
  "read_metadata (metadata_text
      \<lparr> image_url = ''//cdn.example/c/today.png'', title = ''Today'',
        date = ''March 3rd, 2024'', hover_text = '' funny'' \<rparr>) ''Hover Text''
     = Some ''funny''
   \<and> hover_text
      \<lparr> image_url = ''//cdn.example/c/today.png'', title = ''Today'',
        date = ''March 3rd, 2024'', hover_text = '' funny'' \<rparr> = '' funny''"
  by (simp add: read_metadata_def metadata_text_def file_lines_def parse_line_def strip_def
      isspace_def)

end
